theory Spec2Isabelle
  imports Main "HOL-Library.Multiset"
begin

section \<open>Preference tables (preferenceTypes.ts, preferenceSchemas.ts)\<close>

text \<open>
  \<open>ThemeMode\<close> is imported from \<open>@/types\<close>; the comment above
  \<open>'ui.theme_mode'\<close> lists its three members.
\<close>

datatype ThemeMode = light | dark | system

text \<open>The TypeScript types that \<open>PreferenceSchemas['default']\<close> gives its keys.\<close>

datatype preference_type =
  TString | TThemeMode | TBoolean | TNumber | TNumberOrUndefined

text \<open>The values a preference may hold.\<close>

datatype preference_value =
  VString string | VTheme ThemeMode | VBoolean bool | VNumber int | VUndefined

text \<open>
  \<open>interface PreferenceSchemas { default: { ... } }\<close>: the declared keys, in source
  order, each with its declared type.
\<close>

definition PreferenceSchemas_default :: "(string \<times> preference_type) list" where
  "PreferenceSchemas_default =
    [(''user.avatar'', TString),
     (''user.name'', TString),
     (''user.id'', TString),
     (''ui.theme_mode'', TThemeMode),
     (''topic.current_id'', TString),
     (''websearch.search_with_time'', TBoolean),
     (''websearch.max_results'', TNumber),
     (''websearch.override_search_service'', TBoolean),
     (''websearch.content_limit'', TNumberOrUndefined),
     (''app.initialization_version'', TNumber)]"

text \<open>\<open>DefaultPreferences.default\<close>: the object literal, entry by entry.\<close>

definition DefaultPreferences_default :: "(string \<times> preference_value) list" where
  "DefaultPreferences_default =
    [(''user.avatar'', VString ''''),
     (''user.name'', VString ''Cherry Studio''),
     (''user.id'', VString ''uuid()''),
     (''ui.theme_mode'', VTheme system),
     (''topic.current_id'', VString ''''),
     (''websearch.search_with_time'', VBoolean True),
     (''websearch.max_results'', VNumber 5),
     (''websearch.override_search_service'', VBoolean True),
     (''websearch.content_limit'', VNumber 2000),
     (''app.initialization_version'', VNumber 0)]"

text \<open>\<open>PreferenceDescriptions\<close>: the object literal, entry by entry.\<close>

definition PreferenceDescriptions :: "(string \<times> string) list" where
  "PreferenceDescriptions =
    [(''user.avatar'', ''User avatar image path or URL''),
     (''user.name'', ''User display name''),
     (''user.id'', ''Unique user identifier (UUID)''),
     (''ui.theme_mode'', ''Application theme mode (light/dark/system)''),
     (''topic.current_id'', ''Currently active conversation topic ID''),
     (''websearch.search_with_time'', ''Add current date to search queries for recent results''),
     (''websearch.max_results'', ''Maximum number of search results (1-20)''),
     (''websearch.override_search_service'', ''Use custom search service configuration''),
     (''websearch.content_limit'', ''Content length limit for search results (characters)''),
     (''app.initialization_version'', ''Current version of app data initialization migrations'')]"

section \<open>Providers (useProviders.ts)\<close>

text \<open>
  A JavaScript string is a sequence of UTF-16 code units. A provider id is the one
  string whose characters the hooks inspect (\<open>providerId.trim()\<close>), so it is kept as
  its code units, each a number below 65536. \<open>js\<close> gives the code units of a literal
  written with characters below 256.
\<close>

type_synonym js_string = "nat list"

definition js :: "string \<Rightarrow> js_string" where
  "js s = map of_char s"

type_synonym entity_id = js_string

text \<open>
  \<open>Provider\<close> is declared in \<open>@/types/assistant\<close>. The hooks read its
  \<open>id\<close>, \<open>name\<close> and \<open>enabled\<close> members; the record keeps those.
\<close>

record provider =
  provider_id :: entity_id
  provider_name :: string
  enabled :: bool

subsection \<open>useAllProviders\<close>

text \<open>
  \<open>Array.prototype.sort\<close> with a comparator. ECMAScript specifies the sort as stable,
  and the comparator below is a consistent ordering, so the result is the stable
  arrangement; insertion keeps an element in front of the later elements it does not
  exceed.
\<close>

fun js_sort_insert :: "('a \<Rightarrow> 'a \<Rightarrow> int) \<Rightarrow> 'a \<Rightarrow> 'a list \<Rightarrow> 'a list" where
  "js_sort_insert cmp x [] = [x]"
| "js_sort_insert cmp x (y # ys) =
     (if cmp x y \<le> 0 then x # y # ys else y # js_sort_insert cmp x ys)"

fun js_sort :: "('a \<Rightarrow> 'a \<Rightarrow> int) \<Rightarrow> 'a list \<Rightarrow> 'a list" where
  "js_sort cmp [] = []"
| "js_sort cmp (x # xs) = js_sort_insert cmp x (js_sort cmp xs)"

text \<open>
  The comparator of the source:
  \<^verbatim>\<open>(a, b) => { if (a.enabled === b.enabled) return 0; return a.enabled ? -1 : 1 }\<close>
\<close>

definition compareEnabled :: "provider \<Rightarrow> provider \<Rightarrow> int" where
  "compareEnabled a b = (if enabled a = enabled b then 0 else if enabled a then - 1 else 1)"

text \<open>
  The \<open>useMemo\<close> body. \<open>rawProviders\<close> is the \<open>data\<close> of the live query: an array
  or undefined. \<open>transformDbToProvider\<close> comes from \<open>@db/mappers\<close> and is a parameter.
\<close>

definition processedProviders :: "('row \<Rightarrow> provider) \<Rightarrow> 'row list option \<Rightarrow> provider list" where
  "processedProviders transformDbToProvider rawProviders =
     (case rawProviders of
        None \<Rightarrow> []
      | Some rows \<Rightarrow>
          if length rows = 0 then []
          else js_sort compareEnabled (map transformDbToProvider rows))"

record all_providers =
  providers :: "provider list"
  isLoading :: bool

text \<open>
  The hook's return. \<open>updatedAt\<close> is a \<open>Date\<close> or undefined; a \<open>Date\<close> is never falsy.
\<close>

definition useAllProviders ::
  "('row \<Rightarrow> provider) \<Rightarrow> 'row list option \<Rightarrow> 'date option \<Rightarrow> all_providers" where
  "useAllProviders transformDbToProvider rawProviders updatedAt =
     (if updatedAt = None \<or> rawProviders = None
         \<or> (case rawProviders of None \<Rightarrow> True | Some rows \<Rightarrow> length rows = 0)
      then \<lparr>providers = [], isLoading = True\<rparr>
      else \<lparr>providers = processedProviders transformDbToProvider rawProviders,
            isLoading = False\<rparr>)"

subsection \<open>The provider service, as the hooks use it\<close>

text \<open>
  \<open>providerService\<close> (\<open>@/services/ProviderService\<close>) is imported by the hooks and is
  not among the sources. Its data and operations below follow the specification's
  sections 3, 4 and 7; each definition says which sentence it renders.
\<close>

text \<open>
  Modelled from the spec: the error kinds of the missing ProviderService (section 7).
\<close>

datatype service_error =
  EntityNotFound entity_id
| PersistenceFailure string
| UninitializedDefault

text \<open>
  Modelled from the spec: the value the missing ProviderService caches for an entity.
  The cache compares values by reference (4.1, and the invariants of section 3), so a
  value carries the identity of the object that holds it next to its members.
\<close>

record entity =
  ref :: nat
  members :: provider

text \<open>
  Modelled from the spec: \<open>CacheEntry\<close> of the missing ProviderService (section 3):
  the last known value, a generation counter and the optimistic flag.
\<close>

record cache_entry =
  entry_value :: entity
  generation :: nat
  optimistic :: bool

text \<open>
  Modelled from the spec: \<open>PendingWrite\<close> of the missing ProviderService (section 3):
  the entity id, the optimistic value applied and the prior value kept for rollback.
\<close>

record pending_write =
  pw_id :: entity_id
  pw_optimistic :: entity
  pw_prior :: entity

text \<open>
  Modelled from the spec: what the missing ProviderService does to its surroundings: a
  callback invoked (a subscription is named by the handle \<open>subscribe\<close> returned for
  it; what the callback itself does is the subscriber's business), a read of the default
  entity sent to the gateway, and the settling of a caller's \<open>initialize()\<close> promise.
\<close>

datatype event =
  Notified entity_id nat
| NotifiedDefault nat
| FetchDefault
| InitResolved nat
| InitRejected nat service_error

text \<open>
  Modelled from the spec: the state owned by the missing ProviderService (sections 2
  and 3): the entity cache, the default slot, the subscription registry in insertion
  order, the writes in flight, the callers awaiting an initialization in flight, and the
  events so far.
\<close>

record service =
  cache :: "entity_id \<rightharpoonup> cache_entry"
  defaultSlot :: "entity option"
  subs :: "(nat \<times> entity_id) list"
  defaultSubs :: "nat list"
  nextHandle :: nat
  nextRef :: nat
  pending :: "nat \<rightharpoonup> pending_write"
  nextWrite :: nat
  initWaiters :: "nat list option"
  events :: "event list"

text \<open>
  Modelled from the spec: the missing ProviderService when constructed: nothing cached,
  the default slot uninitialized, nobody subscribed.
\<close>

definition init_service :: service where
  "init_service =
     \<lparr>cache = Map.empty, defaultSlot = None, subs = [], defaultSubs = [], nextHandle = 0,
      nextRef = 0, pending = Map.empty, nextWrite = 0, initWaiters = None, events = []\<rparr>"

text \<open>
  Modelled from the spec: a value that the missing ProviderService builds (a merge, a
  value arriving from the gateway) is a new object, with a reference no earlier object
  has.
\<close>

definition new_entity :: "service \<Rightarrow> provider \<Rightarrow> entity \<times> service" where
  "new_entity s p = (\<lparr>ref = nextRef s, members = p\<rparr>, s\<lparr>nextRef := Suc (nextRef s)\<rparr>)"

text \<open>
  Modelled from the spec: \<open>get(id)\<close> of the missing ProviderService (4.1), which the
  hook calls \<open>getProviderCached\<close>: the cached value, or absent.
\<close>

definition getProviderCached :: "service \<Rightarrow> entity_id \<Rightarrow> entity option" where
  "getProviderCached s i = map_option entry_value (cache s i)"

text \<open>
  Modelled from the spec: the live subscriptions the missing ProviderService holds on an
  id, in insertion order (section 3).
\<close>

definition subscribers :: "service \<Rightarrow> entity_id \<Rightarrow> nat list" where
  "subscribers s i = map fst (filter (\<lambda>(h, j). j = i) (subs s))"

text \<open>
  Modelled from the spec: \<open>notify(id)\<close> of the missing ProviderService (4.2): every
  callback live on the id at the start of the call is invoked, once, in insertion order.
\<close>

definition notify :: "service \<Rightarrow> entity_id \<Rightarrow> service" where
  "notify s i = s\<lparr>events := events s @ map (Notified i) (subscribers s i)\<rparr>"

text \<open>
  Modelled from the spec: \<open>put(id, value, optimistic)\<close> of the missing ProviderService
  (4.1): replaces the entry, bumps its generation, sets the flag, and notifies the id's
  subscribers if the value differs by reference from the previous one.
\<close>

definition put :: "service \<Rightarrow> entity_id \<Rightarrow> entity \<Rightarrow> bool \<Rightarrow> service" where
  "put s i v opt =
     (let prev = cache s i;
          s' = s\<lparr>cache := (cache s)(i \<mapsto>
                 \<lparr>entry_value = v,
                  generation = (case prev of None \<Rightarrow> 0 | Some e \<Rightarrow> Suc (generation e)),
                  optimistic = opt\<rparr>)\<rparr>
      in if (case prev of None \<Rightarrow> True | Some e \<Rightarrow> ref (entry_value e) \<noteq> ref v)
         then notify s' i else s')"

text \<open>
  Modelled from the spec: \<open>subscribe(id, callback)\<close> of the missing ProviderService
  (4.2), \<open>subscribeProvider\<close> in the hook: registers the callback and returns the
  handle that removes exactly that registration.
\<close>

definition subscribeProvider :: "service \<Rightarrow> entity_id \<Rightarrow> service \<times> nat" where
  "subscribeProvider s i =
     (s\<lparr>subs := subs s @ [(nextHandle s, i)], nextHandle := Suc (nextHandle s)\<rparr>, nextHandle s)"

text \<open>
  Modelled from the spec: invoking an unsubscribe handle of the missing ProviderService
  (4.2): removes that registration; a second invocation changes nothing.
\<close>

definition unsubscribe :: "service \<Rightarrow> nat \<Rightarrow> service" where
  "unsubscribe s h =
     s\<lparr>subs := filter (\<lambda>(k, j). k \<noteq> h) (subs s),
       defaultSubs := filter (\<lambda>k. k \<noteq> h) (defaultSubs s)\<rparr>"

text \<open>
  Modelled from the spec: \<open>subscribeDefault\<close> of the missing ProviderService (4.2),
  \<open>subscribeDefaultProvider\<close> in the hook: the separate channel of the default slot.
\<close>

definition subscribeDefaultProvider :: "service \<Rightarrow> service \<times> nat" where
  "subscribeDefaultProvider s =
     (s\<lparr>defaultSubs := defaultSubs s @ [nextHandle s], nextHandle := Suc (nextHandle s)\<rparr>,
      nextHandle s)"

text \<open>
  Modelled from the spec: \<open>notifyDefault\<close> of the missing ProviderService (4.2): every
  live default subscriber is invoked once.
\<close>

definition notifyDefault :: "service \<Rightarrow> service" where
  "notifyDefault s = s\<lparr>events := events s @ map NotifiedDefault (defaultSubs s)\<rparr>"

text \<open>
  Modelled from the spec: \<open>getDefault()\<close> of the missing ProviderService (4.1),
  \<open>getDefaultProvider\<close> in the hook: signals the uninitialized condition until the
  slot has been populated.
\<close>

definition getDefaultProvider :: "service \<Rightarrow> service_error + entity" where
  "getDefaultProvider s =
     (case defaultSlot s of None \<Rightarrow> Inl UninitializedDefault | Some v \<Rightarrow> Inr v)"

text \<open>
  Modelled from the spec: \<open>setDefault(value)\<close> of the missing ProviderService (4.1),
  analogous to \<open>put\<close> on the default slot.
\<close>

definition setDefault :: "service \<Rightarrow> entity \<Rightarrow> service" where
  "setDefault s v =
     (let s' = s\<lparr>defaultSlot := Some v\<rparr>
      in if (case defaultSlot s of None \<Rightarrow> True | Some old \<Rightarrow> ref old \<noteq> ref v)
         then notifyDefault s' else s')"

text \<open>
  \<open>Partial<Omit<Provider, 'id'>>\<close>: each member other than the id may be present.
\<close>

record provider_updates =
  set_name :: "string option"
  set_enabled :: "bool option"

text \<open>
  Modelled from the spec: the merge of a partial change over the current value by the
  missing ProviderService (4.3, step 2): a member the change gives replaces the current
  one.
\<close>

definition merge :: "provider \<Rightarrow> provider_updates \<Rightarrow> provider" where
  "merge p u =
     p\<lparr>provider_name := (case set_name u of None \<Rightarrow> provider_name p | Some n \<Rightarrow> n),
       enabled := (case set_enabled u of None \<Rightarrow> enabled p | Some b \<Rightarrow> b)\<rparr>"

text \<open>
  Modelled from the spec: \<open>update(id, partialChange)\<close> of the missing ProviderService,
  steps 1 and 2 (4.3), \<open>updateProvider\<close> in the hook: the part that runs before the
  gateway write is awaited. The current value is the cached one;
  when the id is not cached the gateway's answer to \<open>fetchEntity\<close> stands for it, and a
  failed fetch fails the update (\<open>EntityNotFound\<close>). The optimistic value is put with
  the optimistic flag, and the write in flight is recorded under a fresh number, which is
  returned with the state. The value kept for rollback is the current value, the one held
  when the update was issued (section 8: rollback is exact).
\<close>

definition updateProvider ::
  "service \<Rightarrow> entity_id \<Rightarrow> provider_updates \<Rightarrow> service_error + provider
     \<Rightarrow> service \<times> (service_error + nat)" where
  "updateProvider s i c fetched =
     (case (case cache s i of
              Some e \<Rightarrow> Inr (entry_value e, s)
            | None \<Rightarrow> (case fetched of Inl err \<Rightarrow> Inl err | Inr p \<Rightarrow> Inr (new_entity s p))) of
        Inl err \<Rightarrow> (s, Inl err)
      | Inr (cur, s1) \<Rightarrow>
          let (v, s2) = new_entity s1 (merge (members cur) c);
              s3 = put s2 i v True;
              w = nextWrite s3
          in (s3\<lparr>pending := (pending s3)(w \<mapsto> \<lparr>pw_id = i, pw_optimistic = v, pw_prior = cur\<rparr>),
                 nextWrite := Suc w\<rparr>,
              Inr w))"

text \<open>
  Modelled from the spec: step 4 of \<open>update\<close> in the missing ProviderService (4.3),
  the gateway write of pending write \<open>w\<close> succeeded with the authoritative value \<open>p\<close>: the value is put as confirmed, and
  subscribers are notified again if it differs from the optimistic guess (an equal answer
  keeps the optimistic object). \<open>None\<close> when no such write is in flight.
\<close>

definition updateProvider_resolved ::
  "service \<Rightarrow> nat \<Rightarrow> provider \<Rightarrow> (service \<times> (service_error + unit)) option" where
  "updateProvider_resolved s w p =
     (case pending s w of
        None \<Rightarrow> None
      | Some pw \<Rightarrow>
          let s1 = s\<lparr>pending := (pending s)(w := None)\<rparr>
          in if p = members (pw_optimistic pw)
             then Some (put s1 (pw_id pw) (pw_optimistic pw) False, Inr ())
             else let (v, s2) = new_entity s1 p
                  in Some (put s2 (pw_id pw) v False, Inr ()))"

text \<open>
  Modelled from the spec: step 5 of \<open>update\<close> in the missing ProviderService (4.3),
  the gateway write of pending write \<open>w\<close> failed: the prior value is put back as confirmed, subscribers are notified, and the
  failure is the outcome of \<open>update\<close> for its caller. \<open>None\<close> when no such write is in
  flight.
\<close>

definition updateProvider_rejected ::
  "service \<Rightarrow> nat \<Rightarrow> string \<Rightarrow> (service \<times> (service_error + unit)) option" where
  "updateProvider_rejected s w reason =
     (case pending s w of
        None \<Rightarrow> None
      | Some pw \<Rightarrow>
          Some (put (s\<lparr>pending := (pending s)(w := None)\<rparr>) (pw_id pw) (pw_prior pw) False,
                Inl (PersistenceFailure reason)))"

text \<open>
  Modelled from the spec: \<open>getProvider\<close> of the missing ProviderService, at the
  arrival of the gateway's answer to the load of an entity (section 2, 4.5): on success the cache is populated and the id's subscribers notified;
  on failure the cache is left as it is and the error goes to the requester.
\<close>

definition getProvider_settled ::
  "service \<Rightarrow> entity_id \<Rightarrow> service_error + provider \<Rightarrow> service \<times> (service_error + entity)" where
  "getProvider_settled s i answer =
     (case answer of
        Inl err \<Rightarrow> (s, Inl err)
      | Inr p \<Rightarrow> let (v, s1) = new_entity s p in (put s1 i v False, Inr v))"

text \<open>
  Modelled from the spec: \<open>initialize()\<close> of the missing ProviderService (4.4),
  called by caller \<open>c\<close>: a populated
  slot resolves the call at once with no gateway read; an initialization in flight is
  joined; otherwise one read of the default entity is sent to the gateway.
\<close>

definition initialize :: "service \<Rightarrow> nat \<Rightarrow> service" where
  "initialize s c =
     (case defaultSlot s of
        Some _ \<Rightarrow> s\<lparr>events := events s @ [InitResolved c]\<rparr>
      | None \<Rightarrow>
          (case initWaiters s of
             Some ws \<Rightarrow> s\<lparr>initWaiters := Some (ws @ [c])\<rparr>
           | None \<Rightarrow> s\<lparr>initWaiters := Some [c], events := events s @ [FetchDefault]\<rparr>))"

text \<open>
  Modelled from the spec: the completion, in the missing ProviderService, of the
  initialization in flight (4.4): on
  success the default slot is populated, the default subscribers notified and every
  awaiting caller resolved; on failure the slot is left uninitialized and every awaiting
  caller rejected with the same error. Nothing happens when none is in flight.
\<close>

definition initialize_settled :: "service \<Rightarrow> service_error + provider \<Rightarrow> service" where
  "initialize_settled s answer =
     (case initWaiters s of
        None \<Rightarrow> s
      | Some ws \<Rightarrow>
          (case answer of
             Inl err \<Rightarrow>
               s\<lparr>initWaiters := None, events := events s @ map (\<lambda>c. InitRejected c err) ws\<rparr>
           | Inr p \<Rightarrow>
               let (v, s1) = new_entity (s\<lparr>initWaiters := None\<rparr>) p;
                   s2 = setDefault s1 v
               in s2\<lparr>events := events s2 @ map InitResolved ws\<rparr>))"

text \<open>
  Modelled from the spec: the operations on the missing ProviderService, as the hooks
  and the gateway's completions invoke them (the consumer-facing surface of section 6),
  and their effect on the state. \<open>run\<close> applies a sequence of them in order.
\<close>

datatype op =
  Subscribe entity_id
| SubscribeDefault
| Unsubscribe nat
| Load entity_id "service_error + provider"
| Update entity_id provider_updates "service_error + provider"
| UpdateResolved nat provider
| UpdateRejected nat string
| Initialize nat
| InitializeSettled "service_error + provider"
| SetDefault provider

fun apply_op :: "op \<Rightarrow> service \<Rightarrow> service" where
  "apply_op (Subscribe i) s = fst (subscribeProvider s i)"
| "apply_op SubscribeDefault s = fst (subscribeDefaultProvider s)"
| "apply_op (Unsubscribe h) s = unsubscribe s h"
| "apply_op (Load i answer) s = fst (getProvider_settled s i answer)"
| "apply_op (Update i c fetched) s = fst (updateProvider s i c fetched)"
| "apply_op (UpdateResolved w p) s =
     (case updateProvider_resolved s w p of None \<Rightarrow> s | Some (s', _) \<Rightarrow> s')"
| "apply_op (UpdateRejected w reason) s =
     (case updateProvider_rejected s w reason of None \<Rightarrow> s | Some (s', _) \<Rightarrow> s')"
| "apply_op (Initialize c) s = initialize s c"
| "apply_op (InitializeSettled answer) s = initialize_settled s answer"
| "apply_op (SetDefault p) s = (let (v, s1) = new_entity s p in setDefault s1 v)"

fun run :: "op list \<Rightarrow> service \<Rightarrow> service" where
  "run [] s = s"
| "run (x # xs) s = run xs (apply_op x s)"

text \<open>Whether an operation may populate the default slot.\<close>

fun populates :: "op \<Rightarrow> bool" where
  "populates (SetDefault _) = True"
| "populates (InitializeSettled (Inr _)) = True"
| "populates _ = False"

text \<open>
  What holds of every state the service reaches: every reference in the cache or kept by
  a write in flight is older than the next one to be given out, and a handle names one
  registration.
\<close>

definition service_inv :: "service \<Rightarrow> bool" where
  "service_inv s =
     ((\<forall>i e. cache s i = Some e \<longrightarrow> ref (entry_value e) < nextRef s)
      \<and> (\<forall>w pw. pending s w = Some pw \<longrightarrow>
             ref (pw_prior pw) < nextRef s \<and> ref (pw_optimistic pw) < nextRef s)
      \<and> distinct (map fst (subs s))
      \<and> (\<forall>h\<in>set (map fst (subs s)). h < nextHandle s)
      \<and> distinct (defaultSubs s)
      \<and> (\<forall>h\<in>set (defaultSubs s). h < nextHandle s))"

subsection \<open>useProvider\<close>

text \<open>
  \<open>String.prototype.trim\<close> removes white space and line terminators from both ends.
  ECMAScript's WhiteSpace is tab, vertical tab, form feed, U+FEFF and the space
  separators (U+0020, U+00A0, U+1680, U+2000 to U+200A, U+202F, U+205F, U+3000); its
  LineTerminator is line feed, carriage return, U+2028 and U+2029. Each is one code unit.
\<close>

definition js_whitespace :: "nat \<Rightarrow> bool" where
  "js_whitespace c =
     (c \<in> {0x9, 0xA, 0xB, 0xC, 0xD, 0x20, 0xA0, 0x1680, 0x2028, 0x2029, 0x202F, 0x205F,
            0x3000, 0xFEFF}
      \<or> (0x2000 \<le> c \<and> c \<le> 0x200A))"

definition trim :: "js_string \<Rightarrow> js_string" where
  "trim s = rev (dropWhile js_whitespace (rev (dropWhile js_whitespace s)))"

text \<open>
  \<open>const isValidId = providerId && providerId.trim() !== ''\<close>, as a truth value: the
  empty string is falsy.
\<close>

definition isValidId :: "js_string \<Rightarrow> bool" where
  "isValidId providerId = (providerId \<noteq> [] \<and> trim providerId \<noteq> [])"

text \<open>What \<open>subscribe\<close> returns: the no-op, or the service's handle.\<close>

datatype unsubscriber = NoOp | Handle nat

definition useProvider_subscribe :: "js_string \<Rightarrow> service \<Rightarrow> service \<times> unsubscriber" where
  "useProvider_subscribe providerId s =
     (if \<not> isValidId providerId then (s, NoOp)
      else let (s', h) = subscribeProvider s providerId in (s', Handle h))"

definition useProvider_getSnapshot :: "js_string \<Rightarrow> service \<Rightarrow> entity option" where
  "useProvider_getSnapshot providerId s =
     (if \<not> isValidId providerId then None else getProviderCached s providerId)"

text \<open>
  The state a mounted hook keeps between renders: the \<open>useState(false)\<close> cell, what it
  has handed to \<open>logger.error\<close>, and the dependencies \<open>[provider, providerId,
  isValidId]\<close> of the last run of the loading effect (none before the first run), which
  React keeps to decide whether the effect runs again.
\<close>

record hook =
  isLoadingState :: bool
  logged :: "(js_string \<times> service_error) list"
  effectDeps :: "(entity option \<times> js_string \<times> bool) option"

definition hook_mount :: hook where
  "hook_mount = \<lparr>isLoadingState = False, logged = [], effectDeps = None\<rparr>"

text \<open>
  The loading effect after a render with the snapshot \<open>prov\<close> of that render. React
  runs the effect after the first render and after a render in which a dependency
  differs from the last run; otherwise the effect is skipped and nothing changes. The
  second component tells whether \<open>providerService.getProvider(providerId)\<close> was called.
\<close>

definition useProvider_effect :: "js_string \<Rightarrow> entity option \<Rightarrow> hook \<Rightarrow> hook \<times> bool" where
  "useProvider_effect providerId prov hk =
     (let deps = (prov, providerId, isValidId providerId)
      in if effectDeps hk = Some deps then (hk, False)
         else let hk1 = hk\<lparr>effectDeps := Some deps\<rparr>
              in if \<not> isValidId providerId then (hk1\<lparr>isLoadingState := False\<rparr>, False)
                 else if prov = None then (hk1\<lparr>isLoadingState := True\<rparr>, True)
                 else (hk1\<lparr>isLoadingState := False\<rparr>, False))"

text \<open>The \<open>then\<close> and \<open>catch\<close> handlers on the promise of \<open>getProvider\<close>.\<close>

definition useProvider_loaded :: "js_string \<Rightarrow> service_error + entity \<Rightarrow> hook \<Rightarrow> hook" where
  "useProvider_loaded providerId outcome hk =
     (case outcome of
        Inr _ \<Rightarrow> hk\<lparr>isLoadingState := False\<rparr>
      | Inl err \<Rightarrow> hk\<lparr>logged := logged hk @ [(providerId, err)], isLoadingState := False\<rparr>)"

record provider_view =
  view_provider :: "entity option"
  view_isLoading :: bool

text \<open>What a render returns: \<open>{ provider, isLoading: !provider && isLoading }\<close>.\<close>

definition useProvider :: "js_string \<Rightarrow> service \<Rightarrow> hook \<Rightarrow> provider_view" where
  "useProvider providerId s hk =
     (let prov = useProvider_getSnapshot providerId s
      in \<lparr>view_provider = prov, view_isLoading = (prov = None \<and> isLoadingState hk)\<rparr>)"

subsection \<open>useDefaultProvider\<close>

text \<open>
  \<open>getSnapshot\<close>: \<open>try { return providerService.getDefaultProvider() } catch { return null }\<close>.
\<close>

definition useDefaultProvider_getSnapshot :: "service \<Rightarrow> entity option" where
  "useDefaultProvider_getSnapshot s =
     (case getDefaultProvider s of Inl _ \<Rightarrow> None | Inr v \<Rightarrow> Some v)"

section \<open>Pausing a topic's messages (useMessageOperation.ts)\<close>

text \<open>
  A message, as far as \<open>pauseMessages\<close> reads it: \<open>status\<close> is compared with string
  literals, \<open>askId\<close> is an optional string.
\<close>

record message =
  status :: string
  askId :: "string option"

record topic =
  topic_id :: string
  topic_isLoading :: "bool option"

text \<open>The second argument of \<open>topicService.updateTopic\<close>: a partial topic.\<close>

record topic_updates =
  set_isLoading :: "bool option"

text \<open>
  \<open>abortCompletion\<close> (\<open>@/utils/abortController\<close>) and \<open>topicService.updateTopic\<close> are
  calls into other modules. The model records each call, with its arguments, in the order
  the hook makes them.
\<close>

datatype service_call =
  AbortCompletion string
| UpdateTopic string topic_updates

text \<open>\<open>!!id\<close>: an \<open>askId\<close> is kept when it is defined and not the empty string.\<close>

fun truthy_askIds :: "string option list \<Rightarrow> string list" where
  "truthy_askIds [] = []"
| "truthy_askIds (None # xs) = truthy_askIds xs"
| "truthy_askIds (Some a # xs) = (if a = [] then truthy_askIds xs else a # truthy_askIds xs)"

text \<open>
  \<open>[...new Set(xs)]\<close>: the set is filled in iteration order, a value already present
  is not added again, and spreading yields the values in insertion order.
\<close>

fun js_Set_add :: "'a list \<Rightarrow> 'a list \<Rightarrow> 'a list" where
  "js_Set_add acc [] = acc"
| "js_Set_add acc (x # xs) = js_Set_add (if x \<in> set acc then acc else acc @ [x]) xs"

definition js_Set :: "'a list \<Rightarrow> 'a list" where
  "js_Set xs = js_Set_add [] xs"

text \<open>\<open>for (const askId of askIds) abortCompletion(askId)\<close>, on the list of calls made.\<close>

fun abortEach :: "string list \<Rightarrow> service_call list \<Rightarrow> service_call list" where
  "abortEach [] calls = calls"
| "abortEach (a # as) calls = abortEach as (calls @ [AbortCompletion a])"

text \<open>
  The filter \<open>m => m.status === 'processing' || m.status === 'pending'\<close>.
\<close>

definition streaming :: "message \<Rightarrow> bool" where
  "streaming m = (status m = ''processing'' \<or> status m = ''pending'')"

text \<open>
  \<open>pauseMessages\<close>. \<open>getMessagesByTopicId\<close> is the lookup of \<open>messageDatabase\<close>; its
  answer may be missing (\<open>if (!topicMessages) return\<close>; an array, even empty, is truthy).
\<close>

definition pauseMessages ::
  "(string \<Rightarrow> message list option) \<Rightarrow> topic \<Rightarrow> service_call list \<Rightarrow> service_call list" where
  "pauseMessages getMessagesByTopicId tp calls =
     (case getMessagesByTopicId (topic_id tp) of
        None \<Rightarrow> calls
      | Some topicMessages \<Rightarrow>
          let streamingMessages = filter streaming topicMessages;
              askIds = js_Set (truthy_askIds (map askId streamingMessages));
              calls1 = abortEach askIds calls
          in calls1 @ [UpdateTopic (topic_id tp) \<lparr>set_isLoading = Some False\<rparr>])"

section \<open>Properties of the preference tables\<close>

text \<open>
  Claim C10. The preference tables are total and mutually consistent: the keys of
  \<open>DefaultPreferences.default\<close> are the keys of \<open>PreferenceDescriptions\<close>, and both are
  exactly the keys that \<open>PreferenceSchemas['default']\<close> declares, each once; so every
  preference key has a default value and a description.
\<close>

theorem preference_tables_consistent:
  "set (map fst DefaultPreferences_default) = set (map fst PreferenceDescriptions)
   \<and> set (map fst DefaultPreferences_default) = set (map fst PreferenceSchemas_default)
   \<and> set (map fst PreferenceDescriptions) = set (map fst PreferenceSchemas_default)
   \<and> distinct (map fst PreferenceSchemas_default)
   \<and> distinct (map fst DefaultPreferences_default)
   \<and> distinct (map fst PreferenceDescriptions)"
  by (simp add: DefaultPreferences_default_def PreferenceSchemas_default_def
      PreferenceDescriptions_def)

section \<open>Properties of useAllProviders\<close>

lemma js_sort_insert_mset: "mset (js_sort_insert cmp x ys) = add_mset x (mset ys)"
  by (induction ys) auto

lemma js_sort_mset: "mset (js_sort cmp xs) = mset xs"
  by (induction xs) (auto simp: js_sort_insert_mset)

lemma js_sort_insert_set: "set (js_sort_insert cmp x ys) = insert x (set ys)"
  by (induction ys) auto

lemma enabled_first_insert:
  "sorted_wrt (\<lambda>a b. enabled b \<longrightarrow> enabled a) ys \<Longrightarrow>
   sorted_wrt (\<lambda>a b. enabled b \<longrightarrow> enabled a) (js_sort_insert compareEnabled x ys)"
  by (induction ys) (auto simp: js_sort_insert_set compareEnabled_def split: if_splits)

lemma enabled_first_sort:
  "sorted_wrt (\<lambda>a b. enabled b \<longrightarrow> enabled a) (js_sort compareEnabled xs)"
  by (induction xs) (auto simp: enabled_first_insert)

text \<open>
  Claim C6, as the code has it. The list that \<open>useAllProviders\<close> returns is always
  enabled-first: no disabled provider stands before an enabled one. Once the live query
  has reported (\<open>updatedAt\<close> is set) the list is a permutation of the transformed input
  rows. Until then the returned list is empty, whatever rows the hook holds.
\<close>

theorem useAllProviders_enabled_first:
  "sorted_wrt (\<lambda>a b. enabled b \<longrightarrow> enabled a)
     (providers (useAllProviders transformDbToProvider rawProviders updatedAt))
   \<and> (updatedAt \<noteq> None \<longrightarrow>
        mset (providers (useAllProviders transformDbToProvider rawProviders updatedAt))
        = mset (map transformDbToProvider
                  (case rawProviders of None \<Rightarrow> [] | Some rows \<Rightarrow> rows)))
   \<and> (updatedAt = None \<longrightarrow>
        providers (useAllProviders transformDbToProvider rawProviders updatedAt) = [])"
  by (cases rawProviders)
     (auto simp: useAllProviders_def processedProviders_def enabled_first_sort js_sort_mset)

text \<open>
  The theorem at a query holding two rows, the disabled one first: once it has reported,
  the enabled provider comes out in front; before it has reported, nothing comes out.
\<close>

theorem useAllProviders_enabled_first_witness:
  "providers (useAllProviders id
      (Some [\<lparr>provider_id = js ''p1'', provider_name = ''A'', enabled = False\<rparr>,
             \<lparr>provider_id = js ''p2'', provider_name = ''B'', enabled = True\<rparr>])
      (Some (0 :: nat)))
   = [\<lparr>provider_id = js ''p2'', provider_name = ''B'', enabled = True\<rparr>,
      \<lparr>provider_id = js ''p1'', provider_name = ''A'', enabled = False\<rparr>]
   \<and> sorted_wrt (\<lambda>a b. enabled b \<longrightarrow> enabled a)
       (providers (useAllProviders id
          (Some [\<lparr>provider_id = js ''p1'', provider_name = ''A'', enabled = False\<rparr>,
                 \<lparr>provider_id = js ''p2'', provider_name = ''B'', enabled = True\<rparr>])
          (Some (0 :: nat))))
   \<and> mset (providers (useAllProviders id
          (Some [\<lparr>provider_id = js ''p1'', provider_name = ''A'', enabled = False\<rparr>,
                 \<lparr>provider_id = js ''p2'', provider_name = ''B'', enabled = True\<rparr>])
          (Some (0 :: nat))))
     = mset (map id [\<lparr>provider_id = js ''p1'', provider_name = ''A'', enabled = False\<rparr>,
                     \<lparr>provider_id = js ''p2'', provider_name = ''B'', enabled = True\<rparr>])
   \<and> providers (useAllProviders id
         (Some [\<lparr>provider_id = js ''p1'', provider_name = ''A'', enabled = False\<rparr>,
                \<lparr>provider_id = js ''p2'', provider_name = ''B'', enabled = True\<rparr>])
         (None :: nat option))
     = []"
proof -
  let ?rows = "[\<lparr>provider_id = js ''p1'', provider_name = ''A'', enabled = False\<rparr>,
                \<lparr>provider_id = js ''p2'', provider_name = ''B'', enabled = True\<rparr>]"
  have computed: "providers (useAllProviders id (Some ?rows) (Some (0 :: nat)))
      = [\<lparr>provider_id = js ''p2'', provider_name = ''B'', enabled = True\<rparr>,
         \<lparr>provider_id = js ''p1'', provider_name = ''A'', enabled = False\<rparr>]"
    by (simp add: useAllProviders_def processedProviders_def compareEnabled_def)
  have reported: "Some (0 :: nat) \<noteq> None" by simp
  from useAllProviders_enabled_first [of id "Some ?rows" "Some (0 :: nat)"] reported
  have after: "sorted_wrt (\<lambda>a b. enabled b \<longrightarrow> enabled a)
        (providers (useAllProviders id (Some ?rows) (Some (0 :: nat))))
      \<and> mset (providers (useAllProviders id (Some ?rows) (Some (0 :: nat))))
        = mset (map id ?rows)"
    by simp
  from useAllProviders_enabled_first [of id "Some ?rows" "None :: nat option"]
  have before: "providers (useAllProviders id (Some ?rows) (None :: nat option)) = []"
    by simp
  from computed after before show ?thesis by blast
qed

text \<open>
  Claim C6 as stated fails while the query has not reported: with one row held and
  \<open>updatedAt\<close> undefined the hook returns no provider, which is no permutation of the
  transformed row.
\<close>

theorem useAllProviders_permutation_counterexample:
  "\<not> (sorted_wrt (\<lambda>a b. enabled b \<longrightarrow> enabled a)
        (providers (useAllProviders id
           (Some [\<lparr>provider_id = js ''p1'', provider_name = ''A'', enabled = True\<rparr>])
           (None :: nat option)))
      \<and> mset (providers (useAllProviders id
           (Some [\<lparr>provider_id = js ''p1'', provider_name = ''A'', enabled = True\<rparr>])
           (None :: nat option)))
        = mset (map id [\<lparr>provider_id = js ''p1'', provider_name = ''A'', enabled = True\<rparr>]))"
  by (simp add: useAllProviders_def)

text \<open>
  Claim C8. Whenever the query holds zero providers (an empty array, or no array), the
  hook returns an empty list with \<open>isLoading = true\<close>, whether or not the query has
  completed (\<open>updatedAt\<close> is arbitrary): an empty provider set looks like a loading one.
\<close>

theorem useAllProviders_empty_is_loading:
  "useAllProviders transformDbToProvider (Some []) updatedAt
     = \<lparr>providers = [], isLoading = True\<rparr>
   \<and> useAllProviders transformDbToProvider None updatedAt
     = \<lparr>providers = [], isLoading = True\<rparr>"
  by (simp add: useAllProviders_def)

section \<open>Properties of pauseMessages\<close>

lemma js_Set_add_set: "set (js_Set_add acc xs) = set acc \<union> set xs"
  by (induction xs arbitrary: acc) auto

lemma js_Set_add_distinct: "distinct acc \<Longrightarrow> distinct (js_Set_add acc xs)"
  by (induction xs arbitrary: acc) auto

lemma abortEach_eq: "abortEach as calls = calls @ map AbortCompletion as"
  by (induction as arbitrary: calls) auto

lemma truthy_askIds_set: "set (truthy_askIds xs) = {a. Some a \<in> set xs \<and> a \<noteq> []}"
  by (induction xs rule: truthy_askIds.induct) auto

lemma count_list_distinct: "distinct xs \<Longrightarrow> count_list xs x = (if x \<in> set xs then 1 else 0)"
  by (induction xs) auto

text \<open>
  Claim C7. When the message lookup returns nothing, \<open>pauseMessages\<close> makes no call:
  nothing is cancelled and the topic is not updated. When it returns the topic's
  messages, the calls made are one \<open>abortCompletion\<close> for each distinct non-empty
  \<open>askId\<close> among the messages whose status is \<open>processing\<close> or \<open>pending\<close>, each
  exactly once, and then one \<open>updateTopic\<close> that sets the topic's \<open>isLoading\<close> to false.
\<close>

theorem pauseMessages_aborts_each_askId_once:
  "(getMessagesByTopicId (topic_id tp) = None \<longrightarrow>
      pauseMessages getMessagesByTopicId tp calls = calls)
   \<and> (\<forall>ms. getMessagesByTopicId (topic_id tp) = Some ms \<longrightarrow>
      (\<exists>askIds.
          pauseMessages getMessagesByTopicId tp calls
            = calls @ map AbortCompletion askIds
                @ [UpdateTopic (topic_id tp) \<lparr>set_isLoading = Some False\<rparr>]
        \<and> distinct askIds
        \<and> set askIds
            = {a. a \<noteq> [] \<and> (\<exists>m\<in>set ms. (status m = ''processing'' \<or> status m = ''pending'')
                                     \<and> askId m = Some a)}
        \<and> (\<forall>a. count_list (map AbortCompletion askIds) (AbortCompletion a)
                  = (if a \<in> set askIds then 1 else 0))))"
proof (intro conjI allI impI)
  assume "getMessagesByTopicId (topic_id tp) = None"
  then show "pauseMessages getMessagesByTopicId tp calls = calls"
    by (simp add: pauseMessages_def)
next
  fix ms
  assume ms: "getMessagesByTopicId (topic_id tp) = Some ms"
  define askIds where "askIds = js_Set (truthy_askIds (map askId (filter streaming ms)))"
  have d: "distinct askIds"
    by (simp add: askIds_def js_Set_def js_Set_add_distinct)
  have s: "set askIds
      = {a. a \<noteq> [] \<and> (\<exists>m\<in>set ms. (status m = ''processing'' \<or> status m = ''pending'')
                               \<and> askId m = Some a)}"
    by (force simp: askIds_def js_Set_def js_Set_add_set truthy_askIds_set streaming_def
        image_iff)
  have c: "\<forall>a. count_list (map AbortCompletion askIds) (AbortCompletion a)
                = (if a \<in> set askIds then 1 else 0)"
    using d
    by (simp add: count_list_inj_map inj_on_def count_list_distinct count_list_0_iff image_iff)
  have e: "pauseMessages getMessagesByTopicId tp calls
      = calls @ map AbortCompletion askIds
          @ [UpdateTopic (topic_id tp) \<lparr>set_isLoading = Some False\<rparr>]"
    using ms by (simp add: pauseMessages_def askIds_def abortEach_eq)
  show "\<exists>askIds.
          pauseMessages getMessagesByTopicId tp calls
            = calls @ map AbortCompletion askIds
                @ [UpdateTopic (topic_id tp) \<lparr>set_isLoading = Some False\<rparr>]
        \<and> distinct askIds
        \<and> set askIds
            = {a. a \<noteq> [] \<and> (\<exists>m\<in>set ms. (status m = ''processing'' \<or> status m = ''pending'')
                                     \<and> askId m = Some a)}
        \<and> (\<forall>a. count_list (map AbortCompletion askIds) (AbortCompletion a)
                  = (if a \<in> set askIds then 1 else 0))"
    using d s c e by blast
qed

text \<open>
  The theorem at a topic with six messages (a repeated \<open>askId\<close>, a finished message, an
  empty and a missing \<open>askId\<close>), and at a topic the lookup does not know.
\<close>

theorem pauseMessages_aborts_each_askId_once_witness:
  "pauseMessages
     (Map.empty(''t1'' \<mapsto>
        [\<lparr>status = ''processing'', askId = Some ''a1''\<rparr>,
         \<lparr>status = ''pending'', askId = Some ''a1''\<rparr>,
         \<lparr>status = ''success'', askId = Some ''a2''\<rparr>,
         \<lparr>status = ''pending'', askId = Some []\<rparr>,
         \<lparr>status = ''processing'', askId = None\<rparr>,
         \<lparr>status = ''pending'', askId = Some ''a3''\<rparr>]))
     \<lparr>topic_id = ''t1'', topic_isLoading = Some True\<rparr> []
   = [AbortCompletion ''a1'', AbortCompletion ''a3'',
      UpdateTopic ''t1'' \<lparr>set_isLoading = Some False\<rparr>]
   \<and> (\<exists>askIds.
        pauseMessages
          (Map.empty(''t1'' \<mapsto>
             [\<lparr>status = ''processing'', askId = Some ''a1''\<rparr>,
              \<lparr>status = ''pending'', askId = Some ''a1''\<rparr>,
              \<lparr>status = ''success'', askId = Some ''a2''\<rparr>,
              \<lparr>status = ''pending'', askId = Some []\<rparr>,
              \<lparr>status = ''processing'', askId = None\<rparr>,
              \<lparr>status = ''pending'', askId = Some ''a3''\<rparr>]))
          \<lparr>topic_id = ''t1'', topic_isLoading = Some True\<rparr> []
        = map AbortCompletion askIds @ [UpdateTopic ''t1'' \<lparr>set_isLoading = Some False\<rparr>]
      \<and> distinct askIds)
   \<and> pauseMessages Map.empty \<lparr>topic_id = ''t2'', topic_isLoading = Some True\<rparr>
        [AbortCompletion ''a0''] = [AbortCompletion ''a0'']"
proof -
  let ?ms = "[\<lparr>status = ''processing'', askId = Some ''a1''\<rparr>,
         \<lparr>status = ''pending'', askId = Some ''a1''\<rparr>,
         \<lparr>status = ''success'', askId = Some ''a2''\<rparr>,
         \<lparr>status = ''pending'', askId = Some []\<rparr>,
         \<lparr>status = ''processing'', askId = None\<rparr>,
         \<lparr>status = ''pending'', askId = Some ''a3''\<rparr>]"
  let ?t1 = "\<lparr>topic_id = ''t1'', topic_isLoading = Some True\<rparr>"
  let ?t2 = "\<lparr>topic_id = ''t2'', topic_isLoading = Some True\<rparr>"
  have computed: "pauseMessages (Map.empty(''t1'' \<mapsto> ?ms)) ?t1 []
      = [AbortCompletion ''a1'', AbortCompletion ''a3'',
         UpdateTopic ''t1'' \<lparr>set_isLoading = Some False\<rparr>]"
    by (simp add: pauseMessages_def streaming_def js_Set_def)
  have known: "(Map.empty(''t1'' \<mapsto> ?ms)) (topic_id ?t1) = Some ?ms"
    by simp
  have unknown: "(Map.empty :: string \<rightharpoonup> message list) (topic_id ?t2) = None"
    by simp
  from pauseMessages_aborts_each_askId_once [of "Map.empty(''t1'' \<mapsto> ?ms)" ?t1 "[]"] known
  have some: "\<exists>askIds.
        pauseMessages (Map.empty(''t1'' \<mapsto> ?ms)) ?t1 []
        = map AbortCompletion askIds @ [UpdateTopic ''t1'' \<lparr>set_isLoading = Some False\<rparr>]
      \<and> distinct askIds"
    by auto
  from pauseMessages_aborts_each_askId_once [of Map.empty ?t2 "[AbortCompletion ''a0'']"] unknown
  have none: "pauseMessages Map.empty ?t2 [AbortCompletion ''a0''] = [AbortCompletion ''a0'']"
    by blast
  from computed some none show ?thesis by blast
qed

section \<open>Properties of useProvider\<close>

lemma trim_empty_iff: "trim s = [] \<longleftrightarrow> (\<forall>c\<in>set s. js_whitespace c)"
proof
  assume "trim s = []"
  then have all: "\<forall>x\<in>set (dropWhile js_whitespace s). js_whitespace x"
    by (simp add: trim_def dropWhile_eq_Nil_conv)
  have "dropWhile js_whitespace s = []"
  proof (rule ccontr)
    assume ne: "dropWhile js_whitespace s \<noteq> []"
    then have "\<not> js_whitespace (hd (dropWhile js_whitespace s))"
      by (rule hd_dropWhile)
    moreover have "hd (dropWhile js_whitespace s) \<in> set (dropWhile js_whitespace s)"
      using ne by simp
    ultimately show False using all by blast
  qed
  then show "\<forall>c\<in>set s. js_whitespace c"
    by (simp add: dropWhile_eq_Nil_conv)
next
  assume "\<forall>c\<in>set s. js_whitespace c"
  then have d: "dropWhile js_whitespace s = []"
    by (induction s) auto
  show "trim s = []"
    unfolding trim_def d by simp
qed

lemma invalid_id_iff: "\<not> isValidId s \<longleftrightarrow> (\<forall>c\<in>set s. js_whitespace c)"
  by (auto simp: isValidId_def trim_empty_iff)

text \<open>
  \<open>isValidId\<close> at some ids: the empty id, a space, an id of ideographic space, byte
  order mark, line separator and em space, and the id \<open>p1\<close>, bare and padded.
\<close>

lemma isValidId_examples:
  "\<not> isValidId []
   \<and> \<not> isValidId (js '' '')
   \<and> \<not> isValidId [0x3000, 0xFEFF, 0x2028, 0x2003]
   \<and> isValidId (js ''p1'')
   \<and> isValidId (js '' p1 '')"
  by (simp add: isValidId_def trim_def js_whitespace_def js_def)

text \<open>
  What the hook does keep of claim C9, for every \<open>providerId\<close> that is empty or made of
  white space only (any of ECMAScript's white space and line terminators): every render
  returns \<open>provider = null\<close>; \<open>subscribe\<close> returns the no-op and registers nothing
  with the service; the loading effect never calls \<open>getProvider\<close>, in any state of the
  hook and for any snapshot, and when it runs it sets the \<open>isLoading\<close> state to false; a
  newly mounted hook returns \<open>isLoading = false\<close>. What a render returns as \<open>isLoading\<close>
  is the \<open>isLoading\<close> state as the last effect or handler left it.
\<close>

lemma useProvider_blank_id:
  assumes blank: "\<forall>u\<in>set providerId. js_whitespace u"
  shows "view_provider (useProvider providerId s hk) = None
       \<and> useProvider_subscribe providerId s = (s, NoOp)
       \<and> snd (useProvider_effect providerId prov hk) = False
       \<and> (effectDeps hk \<noteq> Some (prov, providerId, False) \<longrightarrow>
            isLoadingState (fst (useProvider_effect providerId prov hk)) = False)
       \<and> view_isLoading (useProvider providerId s hook_mount) = False
       \<and> view_isLoading (useProvider providerId s hk) = isLoadingState hk"
proof -
  have "\<not> isValidId providerId" using blank by (simp add: invalid_id_iff)
  then show ?thesis
    by (simp add: useProvider_def useProvider_getSnapshot_def useProvider_effect_def
        useProvider_subscribe_def hook_mount_def Let_def)
qed

text \<open>
  Claim C9: for every \<open>providerId\<close> that is empty or white space only, \<open>useProvider\<close>
  returns \<open>provider = null\<close> and \<open>isLoading = false\<close>, subscribes nothing and
  triggers no load. The code misses the \<open>isLoading\<close> part on the render that follows a
  change of id. A hook is mounted with the id \<open>p1\<close>, which is not cached: its effect
  calls \<open>getProvider\<close> and sets the \<open>isLoading\<close> state. Rendered next with the empty
  id, the hook returns \<open>provider = null\<close> with \<open>isLoading = true\<close>: \<open>getSnapshot\<close>
  and \<open>subscribe\<close> test \<open>isValidId\<close> during the render, the returned \<open>isLoading\<close>
  does not, and the state is only reset by the effect, which runs after that render. The
  render after the effect returns \<open>isLoading = false\<close>.
\<close>

theorem useProvider_blank_id_isLoading_leak:
  "snd (useProvider_effect (js ''p1'')
          (view_provider (useProvider (js ''p1'') init_service hook_mount)) hook_mount)
   \<and> \<not> isValidId []
   \<and> view_provider
       (useProvider [] init_service
          (fst (useProvider_effect (js ''p1'')
                  (view_provider (useProvider (js ''p1'') init_service hook_mount))
                  hook_mount)))
     = None
   \<and> view_isLoading
       (useProvider [] init_service
          (fst (useProvider_effect (js ''p1'')
                  (view_provider (useProvider (js ''p1'') init_service hook_mount))
                  hook_mount)))
     = True
   \<and> view_isLoading
       (useProvider [] init_service
          (fst (useProvider_effect [] None
                  (fst (useProvider_effect (js ''p1'')
                          (view_provider (useProvider (js ''p1'') init_service hook_mount))
                          hook_mount)))))
     = False"
  by (simp add: useProvider_def useProvider_getSnapshot_def useProvider_effect_def
      hook_mount_def Let_def isValidId_def trim_def js_whitespace_def js_def init_service_def
      getProviderCached_def)

section \<open>Properties of the provider service\<close>

lemma notify_fields [simp]:
  "cache (notify s i) = cache s"
  "defaultSlot (notify s i) = defaultSlot s"
  "subs (notify s i) = subs s"
  "defaultSubs (notify s i) = defaultSubs s"
  "nextHandle (notify s i) = nextHandle s"
  "nextRef (notify s i) = nextRef s"
  "pending (notify s i) = pending s"
  "nextWrite (notify s i) = nextWrite s"
  "initWaiters (notify s i) = initWaiters s"
  "events (notify s i) = events s @ map (Notified i) (subscribers s i)"
  by (simp_all add: notify_def)

lemma put_fields [simp]:
  "defaultSlot (put s i v b) = defaultSlot s"
  "subs (put s i v b) = subs s"
  "defaultSubs (put s i v b) = defaultSubs s"
  "nextHandle (put s i v b) = nextHandle s"
  "nextRef (put s i v b) = nextRef s"
  "pending (put s i v b) = pending s"
  "nextWrite (put s i v b) = nextWrite s"
  "initWaiters (put s i v b) = initWaiters s"
  by (simp_all add: put_def Let_def)

lemma put_cache:
  "cache (put s i v b) = (cache s)(i \<mapsto>
       \<lparr>entry_value = v,
        generation = (case cache s i of None \<Rightarrow> 0 | Some e \<Rightarrow> Suc (generation e)),
        optimistic = b\<rparr>)"
  by (simp add: put_def Let_def)

lemma put_events:
  "events (put s i v b) =
     events s @ (if (case cache s i of None \<Rightarrow> True | Some e \<Rightarrow> ref (entry_value e) \<noteq> ref v)
                 then map (Notified i) (subscribers s i) else [])"
  by (simp add: put_def Let_def subscribers_def)

lemma getProviderCached_put [simp]: "getProviderCached (put s i v b) i = Some v"
  by (simp add: getProviderCached_def put_cache)

lemma new_entity_fields [simp]:
  "ref (fst (new_entity s p)) = nextRef s"
  "members (fst (new_entity s p)) = p"
  "cache (snd (new_entity s p)) = cache s"
  "defaultSlot (snd (new_entity s p)) = defaultSlot s"
  "subs (snd (new_entity s p)) = subs s"
  "defaultSubs (snd (new_entity s p)) = defaultSubs s"
  "nextHandle (snd (new_entity s p)) = nextHandle s"
  "nextRef (snd (new_entity s p)) = Suc (nextRef s)"
  "pending (snd (new_entity s p)) = pending s"
  "nextWrite (snd (new_entity s p)) = nextWrite s"
  "initWaiters (snd (new_entity s p)) = initWaiters s"
  "events (snd (new_entity s p)) = events s"
  by (simp_all add: new_entity_def)

lemma setDefault_fields [simp]:
  "cache (setDefault s v) = cache s"
  "defaultSlot (setDefault s v) = Some v"
  "subs (setDefault s v) = subs s"
  "defaultSubs (setDefault s v) = defaultSubs s"
  "nextHandle (setDefault s v) = nextHandle s"
  "nextRef (setDefault s v) = nextRef s"
  "pending (setDefault s v) = pending s"
  "nextWrite (setDefault s v) = nextWrite s"
  "initWaiters (setDefault s v) = initWaiters s"
  by (simp_all add: setDefault_def notifyDefault_def Let_def)

lemma setDefault_events:
  "events (setDefault s v) =
     events s @ (if (case defaultSlot s of None \<Rightarrow> True | Some old \<Rightarrow> ref old \<noteq> ref v)
                 then map NotifiedDefault (defaultSubs s) else [])"
  by (simp add: setDefault_def notifyDefault_def Let_def)

lemma service_inv_init: "service_inv init_service"
  by (simp add: service_inv_def init_service_def)

lemma service_inv_new_entity: "service_inv s \<Longrightarrow> service_inv (snd (new_entity s p))"
  by (auto simp: service_inv_def less_Suc_eq)

lemma service_inv_put: "service_inv s \<Longrightarrow> ref v < nextRef s \<Longrightarrow> service_inv (put s i v b)"
  by (auto simp: service_inv_def put_cache)

lemma service_inv_drop_pending: "service_inv s \<Longrightarrow> service_inv (s\<lparr>pending := (pending s)(w := None)\<rparr>)"
  by (auto simp: service_inv_def)

lemma service_inv_subscribe: "service_inv s \<Longrightarrow> service_inv (fst (subscribeProvider s i))"
  by (auto simp: service_inv_def subscribeProvider_def less_Suc_eq)

lemma service_inv_subscribeDefault: "service_inv s \<Longrightarrow> service_inv (fst (subscribeDefaultProvider s))"
  by (auto simp: service_inv_def subscribeDefaultProvider_def less_Suc_eq)

lemma service_inv_unsubscribe: "service_inv s \<Longrightarrow> service_inv (unsubscribe s h)"
  by (auto simp: service_inv_def unsubscribe_def distinct_map_filter)

lemma service_inv_setDefault: "service_inv s \<Longrightarrow> service_inv (setDefault s v)"
  by (simp add: service_inv_def)

lemma service_inv_load: "service_inv s \<Longrightarrow> service_inv (fst (getProvider_settled s i answer))"
  by (cases answer) (auto simp: getProvider_settled_def split_def Let_def intro!: service_inv_put service_inv_new_entity)


lemma service_inv_update: "service_inv s \<Longrightarrow> service_inv (fst (updateProvider s i c fetched))"
proof -
  assume a: "service_inv s"
  have step: "\<And>cur s1. service_inv s1 \<Longrightarrow> ref cur < nextRef s1 \<Longrightarrow>
     service_inv (let (v, s2) = new_entity s1 (merge (members cur) c);
              s3 = put s2 i v True;
              w = nextWrite s3
          in s3\<lparr>pending := (pending s3)(w \<mapsto> \<lparr>pw_id = i, pw_optimistic = v, pw_prior = cur\<rparr>),
                nextWrite := Suc w\<rparr>)"
    by (auto simp: service_inv_def split_def Let_def put_cache less_Suc_eq)
  show ?thesis
  proof (cases "cache s i")
    case (Some e)
    then have "ref (entry_value e) < nextRef s" using a by (simp add: service_inv_def)
    from step[OF a this] Some show ?thesis
      by (simp add: updateProvider_def split_def Let_def)
  next
    case None
    show ?thesis
    proof (cases fetched)
      case (Inl err)
      then show ?thesis using None a by (simp add: updateProvider_def)
    next
      case (Inr p)
      have "service_inv (snd (new_entity s p))" using a by (rule service_inv_new_entity)
      moreover have "ref (fst (new_entity s p)) < nextRef (snd (new_entity s p))" by simp
      ultimately show ?thesis using step[of "snd (new_entity s p)" "fst (new_entity s p)"] None Inr
        by (simp add: updateProvider_def split_def Let_def)
    qed
  qed
qed

lemma service_inv_pending_refs:
  "service_inv s \<Longrightarrow> pending s w = Some pw \<Longrightarrow>
   ref (pw_prior pw) < nextRef s \<and> ref (pw_optimistic pw) < nextRef s"
  by (simp add: service_inv_def)

lemma service_inv_resolved:
  assumes "service_inv s" and "updateProvider_resolved s w p = Some (s', r)"
  shows "service_inv s'"
proof -
  obtain pw where pw: "pending s w = Some pw"
    using assms(2) by (auto simp: updateProvider_resolved_def split: option.splits)
  define s1 where "s1 = s\<lparr>pending := (pending s)(w := None)\<rparr>"
  have i1: "service_inv s1" unfolding s1_def using assms(1) by (rule service_inv_drop_pending)
  have r1: "ref (pw_optimistic pw) < nextRef s1"
    using service_inv_pending_refs[OF assms(1) pw] by (simp add: s1_def)
  show ?thesis
  proof (cases "p = members (pw_optimistic pw)")
    case True
    then have "s' = put s1 (pw_id pw) (pw_optimistic pw) False"
      using assms(2) pw by (simp add: updateProvider_resolved_def s1_def)
    then show ?thesis using i1 r1 by (simp add: service_inv_put)
  next
    case False
    then have "s' = put (snd (new_entity s1 p)) (pw_id pw) (fst (new_entity s1 p)) False"
      using assms(2) pw by (simp add: updateProvider_resolved_def s1_def split_def Let_def)
    then show ?thesis using i1 by (simp add: service_inv_put service_inv_new_entity)
  qed
qed

lemma service_inv_rejected:
  assumes "service_inv s" and "updateProvider_rejected s w reason = Some (s', r)"
  shows "service_inv s'"
proof -
  obtain pw where pw: "pending s w = Some pw"
    using assms(2) by (auto simp: updateProvider_rejected_def split: option.splits)
  define s1 where "s1 = s\<lparr>pending := (pending s)(w := None)\<rparr>"
  have i1: "service_inv s1" unfolding s1_def using assms(1) by (rule service_inv_drop_pending)
  have r1: "ref (pw_prior pw) < nextRef s1"
    using service_inv_pending_refs[OF assms(1) pw] by (simp add: s1_def)
  have "s' = put s1 (pw_id pw) (pw_prior pw) False"
    using assms(2) pw by (simp add: updateProvider_rejected_def s1_def)
  then show ?thesis using i1 r1 by (simp add: service_inv_put)
qed

lemma service_inv_initialize: "service_inv s \<Longrightarrow> service_inv (initialize s c)"
  by (auto simp: initialize_def service_inv_def split: option.splits)

lemma service_inv_initialize_settled: "service_inv s \<Longrightarrow> service_inv (initialize_settled s answer)"
  by (auto simp: initialize_settled_def service_inv_def split_def Let_def less_Suc_eq
      split: option.splits sum.splits)

lemma service_inv_apply_op: "service_inv s \<Longrightarrow> service_inv (apply_op x s)"
proof (cases x)
  case (UpdateResolved w p)
  then show "service_inv s \<Longrightarrow> ?thesis"
    by (auto split: option.splits dest: service_inv_resolved)
next
  case (UpdateRejected w reason)
  then show "service_inv s \<Longrightarrow> ?thesis"
    by (auto split: option.splits dest: service_inv_rejected)
next
  case (SetDefault p)
  then show "service_inv s \<Longrightarrow> ?thesis"
    by (simp add: split_def Let_def service_inv_setDefault service_inv_new_entity)
qed (simp_all add: service_inv_subscribe service_inv_subscribeDefault service_inv_unsubscribe service_inv_load service_inv_update
       service_inv_initialize service_inv_initialize_settled)

lemma service_inv_run: "service_inv s \<Longrightarrow> service_inv (run xs s)"
  by (induction xs arbitrary: s) (simp_all add: service_inv_apply_op)

lemma count_Notified:
  "distinct hs \<Longrightarrow> h \<in> set hs \<Longrightarrow> count_list (map (Notified i) hs) (Notified i h) = 1"
  by (induction hs) (auto simp: count_list_0_iff)

lemma count_NotifiedDefault:
  "distinct hs \<Longrightarrow> h \<in> set hs \<Longrightarrow> count_list (map NotifiedDefault hs) (NotifiedDefault h) = 1"
  by (induction hs) (auto simp: count_list_0_iff)

lemma subscribers_distinct: "service_inv s \<Longrightarrow> distinct (subscribers s i)"
  by (simp add: service_inv_def subscribers_def distinct_map_filter)

lemma subscribers_set: "set (subscribers s i) = {h. (h, i) \<in> set (subs s)}"
  by (auto simp: subscribers_def image_iff)

subsection \<open>Optimistic update\<close>

text \<open>
  Claim C1. In every state the service reaches, for every cached id and every partial
  change, the part of \<open>update\<close> that runs before the gateway write is awaited already
  leaves the cache holding the merge of the change over the previous value, marked
  optimistic, and has invoked each subscriber registered on the id exactly once (and
  nobody else).
\<close>

theorem update_applies_optimistic_value:
  assumes reach: "s = run ops init_service"
    and cached: "getProviderCached s i = Some cur"
  shows "\<exists>s' w v.
           updateProvider s i c fetched = (s', Inr w)
         \<and> getProviderCached s' i = Some v
         \<and> members v = merge (members cur) c
         \<and> map_option optimistic (cache s' i) = Some True
         \<and> pending s' w = Some \<lparr>pw_id = i, pw_optimistic = v, pw_prior = cur\<rparr>
         \<and> events s' = events s @ map (Notified i) (subscribers s i)
         \<and> (\<forall>h. (h, i) \<in> set (subs s) \<longrightarrow>
               count_list (drop (length (events s)) (events s')) (Notified i h) = 1)"
proof -
  have i: "service_inv s" using reach service_inv_run[OF service_inv_init] by simp
  obtain e where e: "cache s i = Some e" "entry_value e = cur"
    using cached by (auto simp: getProviderCached_def)
  have fresh: "ref cur < nextRef s" using i e by (auto simp: service_inv_def)
  define v where "v = fst (new_entity s (merge (members cur) c))"
  define s2 where "s2 = snd (new_entity s (merge (members cur) c))"
  define s3 where "s3 = put s2 i v True"
  define w where "w = nextWrite s3"
  define s' where
    "s' = s3\<lparr>pending := (pending s3)(w \<mapsto> \<lparr>pw_id = i, pw_optimistic = v, pw_prior = cur\<rparr>),
             nextWrite := Suc w\<rparr>"
  have u: "updateProvider s i c fetched = (s', Inr w)"
    using e by (simp add: updateProvider_def split_def Let_def s'_def w_def s3_def s2_def v_def)
  have g: "getProviderCached s' i = Some v"
    by (simp add: s'_def s3_def getProviderCached_def put_cache)
  have m: "members v = merge (members cur) c" by (simp add: v_def)
  have o: "map_option optimistic (cache s' i) = Some True"
    by (simp add: s'_def s3_def put_cache)
  have p: "pending s' w = Some \<lparr>pw_id = i, pw_optimistic = v, pw_prior = cur\<rparr>"
    by (simp add: s'_def)
  have ev: "events s' = events s @ map (Notified i) (subscribers s i)"
    using e fresh by (simp add: s'_def s3_def put_events s2_def v_def subscribers_def)
  have cnt: "\<forall>h. (h, i) \<in> set (subs s) \<longrightarrow>
               count_list (drop (length (events s)) (events s')) (Notified i h) = 1"
    using subscribers_distinct[OF i, of i] by (simp add: ev count_Notified subscribers_set)
  from u g m o p ev cnt show ?thesis by blast
qed

text \<open>
  The theorem at the example of the specification: \<open>p1\<close> is cached disabled and has one
  subscriber; the update enables it.
\<close>

theorem update_applies_optimistic_value_witness:
  "getProviderCached
     (run [Load (js ''p1'') (Inr \<lparr>provider_id = (js ''p1''), provider_name = ''P'', enabled = False\<rparr>),
           Subscribe (js ''p1'')] init_service) (js ''p1'')
     = Some \<lparr>ref = 0, members = \<lparr>provider_id = (js ''p1''), provider_name = ''P'', enabled = False\<rparr>\<rparr>
   \<and> (\<exists>s' w v.
        updateProvider
          (run [Load (js ''p1'') (Inr \<lparr>provider_id = (js ''p1''), provider_name = ''P'', enabled = False\<rparr>),
                Subscribe (js ''p1'')] init_service)
          (js ''p1'') \<lparr>set_name = None, set_enabled = Some True\<rparr> (Inl (EntityNotFound (js ''p1'')))
        = (s', Inr w)
      \<and> getProviderCached s' (js ''p1'') = Some v
      \<and> members v = \<lparr>provider_id = (js ''p1''), provider_name = ''P'', enabled = True\<rparr>
      \<and> events s' = [Notified (js ''p1'') 0])"
proof -
  define s where
    "s = run [Load (js ''p1'') (Inr \<lparr>provider_id = (js ''p1''), provider_name = ''P'', enabled = False\<rparr>),
              Subscribe (js ''p1'')] init_service"
  have h: "getProviderCached s (js ''p1'')
     = Some \<lparr>ref = 0, members = \<lparr>provider_id = (js ''p1''), provider_name = ''P'', enabled = False\<rparr>\<rparr>"
    by (simp add: s_def init_service_def getProvider_settled_def new_entity_def put_def notify_def
        subscribers_def subscribeProvider_def getProviderCached_def Let_def)
  have e: "events s = []"
    by (simp add: s_def init_service_def getProvider_settled_def new_entity_def put_def notify_def
        subscribers_def subscribeProvider_def Let_def)
  have sb: "subscribers s (js ''p1'') = [0]"
    by (simp add: s_def init_service_def getProvider_settled_def new_entity_def put_def notify_def
        subscribers_def subscribeProvider_def Let_def)
  from update_applies_optimistic_value
         [OF s_def h, of "\<lparr>set_name = None, set_enabled = Some True\<rparr>"
             "Inl (EntityNotFound (js ''p1''))"]
  obtain s' w v where
    "updateProvider s (js ''p1'') \<lparr>set_name = None, set_enabled = Some True\<rparr>
       (Inl (EntityNotFound (js ''p1''))) = (s', Inr w)"
    "getProviderCached s' (js ''p1'') = Some v"
    "members v = merge \<lparr>provider_id = (js ''p1''), provider_name = ''P'', enabled = False\<rparr>
                   \<lparr>set_name = None, set_enabled = Some True\<rparr>"
    "events s' = events s @ map (Notified (js ''p1'')) (subscribers s (js ''p1''))"
    by auto
  then have "\<exists>s' w v.
        updateProvider s (js ''p1'') \<lparr>set_name = None, set_enabled = Some True\<rparr>
          (Inl (EntityNotFound (js ''p1''))) = (s', Inr w)
      \<and> getProviderCached s' (js ''p1'') = Some v
      \<and> members v = \<lparr>provider_id = (js ''p1''), provider_name = ''P'', enabled = True\<rparr>
      \<and> events s' = [Notified (js ''p1'') 0]"
    by (simp add: e sb merge_def)
  with h show ?thesis unfolding s_def by blast
qed

subsection \<open>Initialization of the default slot\<close>

lemma initialize_joined:
  "defaultSlot s = None \<Longrightarrow> initWaiters s = Some ws \<Longrightarrow>
   foldl initialize s cs = s\<lparr>initWaiters := Some (ws @ cs)\<rparr>"
proof (induction cs arbitrary: s ws)
  case Nil
  then show ?case by (cases s) simp
next
  case (Cons c cs)
  have "initialize s c = s\<lparr>initWaiters := Some (ws @ [c])\<rparr>"
    using Cons.prems by (simp add: initialize_def)
  moreover have "foldl initialize (s\<lparr>initWaiters := Some (ws @ [c])\<rparr>) cs
       = s\<lparr>initWaiters := Some (ws @ [c])\<rparr>\<lparr>initWaiters := Some ((ws @ [c]) @ cs)\<rparr>"
    using Cons.prems by (intro Cons.IH) simp_all
  ultimately show ?case by simp
qed

text \<open>
  Claim C3. In every state the service reaches: when the default slot is populated,
  \<open>initialize()\<close> resolves its caller at once and does nothing else (no gateway read).
  When the slot is uninitialized and no initialization is in flight, \<open>N \<ge> 1\<close> calls of
  \<open>initialize()\<close> followed by the one success of the gateway read make exactly one
  gateway read, populate the slot with the value read, notify each default subscriber
  exactly once, and resolve each of the \<open>N\<close> callers, who all find that value in the
  slot.
\<close>

theorem initialize_idempotent:
  assumes reach: "s = run ops init_service"
  shows "(\<forall>v. defaultSlot s = Some v \<longrightarrow>
            initialize s c = s\<lparr>events := events s @ [InitResolved c]\<rparr>)
       \<and> (defaultSlot s = None \<and> initWaiters s = None \<longrightarrow>
            (\<exists>s2 v. initialize_settled (foldl initialize s (c # cs)) (Inr p) = s2
               \<and> getDefaultProvider s2 = Inr v \<and> members v = p
               \<and> initWaiters s2 = None
               \<and> events s2 = events s @ [FetchDefault] @ map NotifiedDefault (defaultSubs s)
                               @ map InitResolved (c # cs)
               \<and> count_list (drop (length (events s)) (events s2)) FetchDefault = 1
               \<and> (\<forall>h\<in>set (defaultSubs s).
                     count_list (drop (length (events s)) (events s2)) (NotifiedDefault h) = 1)))"
proof (intro conjI allI impI)
  fix v assume "defaultSlot s = Some v"
  then show "initialize s c = s\<lparr>events := events s @ [InitResolved c]\<rparr>"
    by (simp add: initialize_def)
next
  assume idle: "defaultSlot s = None \<and> initWaiters s = None"
  have i: "service_inv s" using reach service_inv_run[OF service_inv_init] by simp
  have d: "distinct (defaultSubs s)" using i by (simp add: service_inv_def)
  define s1 where "s1 = s\<lparr>initWaiters := Some [c], events := events s @ [FetchDefault]\<rparr>"
  have first: "initialize s c = s1" using idle by (simp add: initialize_def s1_def)
  have "foldl initialize s1 cs = s1\<lparr>initWaiters := Some ([c] @ cs)\<rparr>"
    using idle by (intro initialize_joined) (simp_all add: s1_def)
  then have calls: "foldl initialize s (c # cs) = s1\<lparr>initWaiters := Some (c # cs)\<rparr>"
    using first by simp
  define s2 where "s2 = initialize_settled (foldl initialize s (c # cs)) (Inr p)"
  define v where "v = \<lparr>ref = nextRef s, members = p\<rparr>"
  have g: "getDefaultProvider s2 = Inr v"
    unfolding s2_def calls
    by (simp add: initialize_settled_def s1_def split_def Let_def
        getDefaultProvider_def new_entity_def v_def)
  have m: "members v = p" by (simp add: v_def)
  have w: "initWaiters s2 = None"
    unfolding s2_def calls
    by (simp add: initialize_settled_def s1_def split_def Let_def new_entity_def)
  have e: "events s2 = events s @ [FetchDefault] @ map NotifiedDefault (defaultSubs s)
                               @ map InitResolved (c # cs)"
    using idle unfolding s2_def calls
    by (simp add: initialize_settled_def s1_def split_def Let_def
        setDefault_events new_entity_def)
  have c1: "count_list (drop (length (events s)) (events s2)) FetchDefault = 1"
    by (simp add: e count_list_0_iff image_iff)
  have c2: "\<forall>h\<in>set (defaultSubs s).
      count_list (drop (length (events s)) (events s2)) (NotifiedDefault h) = 1"
    using d by (simp add: e count_NotifiedDefault count_list_0_iff image_iff)
  show "\<exists>s2 v. initialize_settled (foldl initialize s (c # cs)) (Inr p) = s2
               \<and> getDefaultProvider s2 = Inr v \<and> members v = p
               \<and> initWaiters s2 = None
               \<and> events s2 = events s @ [FetchDefault] @ map NotifiedDefault (defaultSubs s)
                               @ map InitResolved (c # cs)
               \<and> count_list (drop (length (events s)) (events s2)) FetchDefault = 1
               \<and> (\<forall>h\<in>set (defaultSubs s).
                     count_list (drop (length (events s)) (events s2)) (NotifiedDefault h) = 1)"
    using g m w e c1 c2 unfolding s2_def by blast
qed

text \<open>
  The theorem with one default subscriber and three callers while the slot is
  uninitialized, and then at a fourth call, which finds the slot populated.
\<close>

theorem initialize_idempotent_witness:
  "(\<exists>v. getDefaultProvider
          (initialize_settled
             (foldl initialize (run [SubscribeDefault] init_service) [1, 2, 3])
             (Inr \<lparr>provider_id = (js ''p1''), provider_name = ''P'', enabled = True\<rparr>)) = Inr v
        \<and> members v = \<lparr>provider_id = (js ''p1''), provider_name = ''P'', enabled = True\<rparr>)
   \<and> events
       (initialize_settled
          (foldl initialize (run [SubscribeDefault] init_service) [1, 2, 3])
          (Inr \<lparr>provider_id = (js ''p1''), provider_name = ''P'', enabled = True\<rparr>))
     = [FetchDefault, NotifiedDefault 0, InitResolved 1, InitResolved 2, InitResolved 3]
   \<and> events
       (initialize
          (run [SubscribeDefault, Initialize 1,
                InitializeSettled
                  (Inr \<lparr>provider_id = (js ''p1''), provider_name = ''P'', enabled = True\<rparr>)]
             init_service) 4)
     = [FetchDefault, NotifiedDefault 0, InitResolved 1, InitResolved 4]"
proof -
  let ?P = "\<lparr>provider_id = (js ''p1''), provider_name = ''P'', enabled = True\<rparr>"
  define s where "s = run [SubscribeDefault] init_service"
  have idle: "defaultSlot s = None \<and> initWaiters s = None"
    by (simp add: s_def init_service_def subscribeDefaultProvider_def)
  have ev: "events s = []" and ds: "defaultSubs s = [0]"
    by (simp_all add: s_def init_service_def subscribeDefaultProvider_def)
  from initialize_idempotent[OF s_def, of 1 "[2, 3]" ?P] idle
  obtain v where v: "getDefaultProvider (initialize_settled (foldl initialize s [1, 2, 3]) (Inr ?P))
        = Inr v" "members v = ?P"
    and e: "events (initialize_settled (foldl initialize s [1, 2, 3]) (Inr ?P))
        = events s @ [FetchDefault] @ map NotifiedDefault (defaultSubs s)
            @ map InitResolved [1, 2, 3]"
    by blast
  have first: "(\<exists>v. getDefaultProvider
          (initialize_settled (foldl initialize s [1, 2, 3]) (Inr ?P)) = Inr v
        \<and> members v = ?P)"
    using v by blast
  have second: "events (initialize_settled (foldl initialize s [1, 2, 3]) (Inr ?P))
     = [FetchDefault, NotifiedDefault 0, InitResolved 1, InitResolved 2, InitResolved 3]"
    using e by (simp add: ev ds)
  define t where
    "t = run [SubscribeDefault, Initialize 1, InitializeSettled (Inr ?P)] init_service"
  have slot: "defaultSlot t = Some \<lparr>ref = 0, members = ?P\<rparr>"
    by (simp add: t_def init_service_def subscribeDefaultProvider_def initialize_def
        initialize_settled_def new_entity_def setDefault_def notifyDefault_def split_def Let_def)
  have evt: "events t = [FetchDefault, NotifiedDefault 0, InitResolved 1]"
    by (simp add: t_def init_service_def subscribeDefaultProvider_def initialize_def
        initialize_settled_def new_entity_def setDefault_def notifyDefault_def split_def Let_def)
  from initialize_idempotent[OF t_def, of 4] slot
  have "initialize t 4 = t\<lparr>events := events t @ [InitResolved 4]\<rparr>"
    by blast
  then have third: "events (initialize t 4)
      = [FetchDefault, NotifiedDefault 0, InitResolved 1, InitResolved 4]"
    by (simp add: evt)
  from first second third show ?thesis unfolding s_def t_def by blast
qed

lemma defaultSlot_kept:
  "defaultSlot s = None \<Longrightarrow> \<not> populates x \<Longrightarrow> defaultSlot (apply_op x s) = None"
proof (cases x)
  case (InitializeSettled answer)
  then show "defaultSlot s = None \<Longrightarrow> \<not> populates x \<Longrightarrow> ?thesis"
    by (cases answer) (auto simp: initialize_settled_def split: option.splits)
qed (auto simp: subscribeProvider_def subscribeDefaultProvider_def unsubscribe_def
       getProvider_settled_def updateProvider_def updateProvider_resolved_def
       updateProvider_rejected_def initialize_def new_entity_def split_def Let_def
       split: option.splits sum.splits)

lemma defaultSlot_kept_run:
  "defaultSlot s = None \<Longrightarrow> \<forall>x\<in>set xs. \<not> populates x \<Longrightarrow> defaultSlot (run xs s) = None"
  by (induction xs arbitrary: s) (simp_all add: defaultSlot_kept)

text \<open>
  Claim C4. After any sequence of operations on a new service that contains no
  \<open>setDefault\<close> and no successful completion of \<open>initialize\<close>, reading the default
  entity signals \<open>UninitializedDefault\<close>, and the snapshot of \<open>useDefaultProvider\<close>
  turns that into an absent result.
\<close>

theorem default_uninitialized_until_populated:
  assumes "\<forall>x\<in>set ops. \<not> populates x"
  shows "getDefaultProvider (run ops init_service) = Inl UninitializedDefault
       \<and> useDefaultProvider_getSnapshot (run ops init_service) = None"
proof -
  have "defaultSlot (run ops init_service) = None"
    using assms by (intro defaultSlot_kept_run) (simp_all add: init_service_def)
  then show ?thesis
    by (simp add: getDefaultProvider_def useDefaultProvider_getSnapshot_def)
qed

text \<open>
  The theorem after a subscription, a load, an update and an initialization that failed.
\<close>

theorem default_uninitialized_until_populated_witness:
  "getDefaultProvider
     (run [SubscribeDefault,
           Load (js ''p1'') (Inr \<lparr>provider_id = (js ''p1''), provider_name = ''P'', enabled = False\<rparr>),
           Update (js ''p1'') \<lparr>set_name = None, set_enabled = Some True\<rparr>
             (Inl (EntityNotFound (js ''p1''))),
           Initialize 1,
           InitializeSettled (Inl (PersistenceFailure ''offline''))]
        init_service)
     = Inl UninitializedDefault
   \<and> useDefaultProvider_getSnapshot
       (run [SubscribeDefault,
             Load (js ''p1'') (Inr \<lparr>provider_id = (js ''p1''), provider_name = ''P'', enabled = False\<rparr>),
             Update (js ''p1'') \<lparr>set_name = None, set_enabled = Some True\<rparr>
               (Inl (EntityNotFound (js ''p1''))),
             Initialize 1,
             InitializeSettled (Inl (PersistenceFailure ''offline''))]
          init_service)
     = None"
proof -
  have "\<forall>x\<in>set [SubscribeDefault,
           Load (js ''p1'') (Inr \<lparr>provider_id = (js ''p1''), provider_name = ''P'', enabled = False\<rparr>),
           Update (js ''p1'') \<lparr>set_name = None, set_enabled = Some True\<rparr>
             (Inl (EntityNotFound (js ''p1''))),
           Initialize 1,
           InitializeSettled (Inl (PersistenceFailure ''offline''))]. \<not> populates x"
    by simp
  then show ?thesis by (rule default_uninitialized_until_populated)
qed

subsection \<open>Loading an entity\<close>

text \<open>
  Claim C5, as the code has it. For a valid id absent from the cache and a hook whose
  loading effect is due (newly mounted, or rendered with changed dependencies): the
  effect calls \<open>getProvider\<close> and the hook shows Loading. When the gateway then fails,
  the service state is unchanged (the snapshot of the id is still absent, nothing is
  cached), the error reaches the requester (the hook's \<open>catch\<close>, which logs it), and
  the hook stops showing Loading. A further render of the same hook with the same id,
  the snapshot still absent, does not run the effect: no load is started and the hook stays
  out of Loading. Loading is entered again, with a new call of \<open>getProvider\<close>, by any
  hook whose effect is due, a newly mounted one among them.
\<close>

theorem load_failure_not_cached:
  assumes valid: "isValidId i"
    and absent: "getProviderCached s i = None"
    and due: "effectDeps hk \<noteq> Some (None, i, True)"
  shows "\<exists>hk1 s' outcome hk2.
           useProvider_effect i (view_provider (useProvider i s hk)) hk = (hk1, True)
         \<and> view_isLoading (useProvider i s hk1)
         \<and> getProvider_settled s i (Inl err) = (s', outcome)
         \<and> s' = s
         \<and> getProviderCached s' i = None
         \<and> outcome = Inl err
         \<and> useProvider_loaded i outcome hk1 = hk2
         \<and> logged hk2 = logged hk @ [(i, err)]
         \<and> view_provider (useProvider i s' hk2) = None
         \<and> \<not> view_isLoading (useProvider i s' hk2)
         \<and> useProvider_effect i (view_provider (useProvider i s' hk2)) hk2 = (hk2, False)
         \<and> (\<forall>hk'. effectDeps hk' = Some (None, i, True) \<longrightarrow>
               useProvider_effect i (view_provider (useProvider i s' hk')) hk' = (hk', False))
         \<and> (\<forall>hk'. effectDeps hk' \<noteq> Some (None, i, True) \<longrightarrow>
               snd (useProvider_effect i (view_provider (useProvider i s' hk')) hk')
             \<and> view_isLoading
                 (useProvider i s'
                    (fst (useProvider_effect i (view_provider (useProvider i s' hk')) hk'))))
         \<and> snd (useProvider_effect i (view_provider (useProvider i s' hook_mount)) hook_mount)"
  using valid absent due
  by (simp add: useProvider_effect_def useProvider_def useProvider_getSnapshot_def
      getProvider_settled_def useProvider_loaded_def hook_mount_def Let_def)

text \<open>
  The theorem at a new service and a newly mounted hook, for the id \<open>p1\<close> and a gateway
  that is offline.
\<close>

theorem load_failure_not_cached_witness:
  "isValidId (js ''p1'')
   \<and> getProviderCached init_service (js ''p1'') = None
   \<and> getProvider_settled init_service (js ''p1'') (Inl (PersistenceFailure ''offline''))
       = (init_service, Inl (PersistenceFailure ''offline''))
   \<and> useProvider_effect (js ''p1'')
         (view_provider (useProvider (js ''p1'') init_service hook_mount)) hook_mount
       = (\<lparr>isLoadingState = True, logged = [],
           effectDeps = Some (None, js ''p1'', True)\<rparr>, True)
   \<and> useProvider_loaded (js ''p1'') (Inl (PersistenceFailure ''offline''))
         \<lparr>isLoadingState = True, logged = [], effectDeps = Some (None, js ''p1'', True)\<rparr>
       = \<lparr>isLoadingState = False, logged = [(js ''p1'', PersistenceFailure ''offline'')],
          effectDeps = Some (None, js ''p1'', True)\<rparr>
   \<and> useProvider_effect (js ''p1'') None
         \<lparr>isLoadingState = False, logged = [(js ''p1'', PersistenceFailure ''offline'')],
          effectDeps = Some (None, js ''p1'', True)\<rparr>
       = (\<lparr>isLoadingState = False, logged = [(js ''p1'', PersistenceFailure ''offline'')],
           effectDeps = Some (None, js ''p1'', True)\<rparr>, False)"
proof -
  let ?hk1 = "\<lparr>isLoadingState = True, logged = [],
               effectDeps = Some (None, js ''p1'', True)\<rparr>"
  let ?hk2 = "\<lparr>isLoadingState = False, logged = [(js ''p1'', PersistenceFailure ''offline'')],
               effectDeps = Some (None, js ''p1'', True)\<rparr>"
  have valid: "isValidId (js ''p1'')"
    by (simp add: isValidId_def trim_def js_whitespace_def js_def)
  have absent: "getProviderCached init_service (js ''p1'') = None"
    by (simp add: getProviderCached_def init_service_def)
  have due: "effectDeps hook_mount \<noteq> Some (None, js ''p1'', True)"
    by (simp add: hook_mount_def)
  have snapshot: "view_provider (useProvider (js ''p1'') init_service ?hk2) = None"
    using valid absent by (simp add: useProvider_def useProvider_getSnapshot_def)
  from load_failure_not_cached
         [OF valid absent due, of "PersistenceFailure ''offline''"]
  obtain hk1 hk2 where
    a: "useProvider_effect (js ''p1'')
          (view_provider (useProvider (js ''p1'') init_service hook_mount)) hook_mount
        = (hk1, True)"
    and b: "getProvider_settled init_service (js ''p1'') (Inl (PersistenceFailure ''offline''))
        = (init_service, Inl (PersistenceFailure ''offline''))"
    and c: "useProvider_loaded (js ''p1'') (Inl (PersistenceFailure ''offline'')) hk1 = hk2"
    and d: "useProvider_effect (js ''p1'')
          (view_provider (useProvider (js ''p1'') init_service hk2)) hk2 = (hk2, False)"
    by auto
  have hk1: "hk1 = ?hk1"
    using a valid absent
    by (simp add: useProvider_effect_def useProvider_def useProvider_getSnapshot_def
        hook_mount_def Let_def)
  have hk2: "hk2 = ?hk2"
    using c by (simp add: hk1 useProvider_loaded_def)
  from a b c d hk1 hk2 snapshot valid absent show ?thesis by simp
qed

text \<open>
  Claim C5 as stated fails for the hook that saw the failure: mounted with the id
  \<open>p1\<close> on a new service, its load fails; rendered again with the same id and the
  snapshot still absent, its effect does not run, no load is started and it does not
  show Loading.
\<close>

theorem load_failure_no_retry_counterexample:
  "\<not> snd (useProvider_effect (js ''p1'')
            (view_provider
               (useProvider (js ''p1'') init_service
                  (useProvider_loaded (js ''p1'') (Inl (PersistenceFailure ''offline''))
                     (fst (useProvider_effect (js ''p1'')
                             (view_provider (useProvider (js ''p1'') init_service hook_mount))
                             hook_mount)))))
            (useProvider_loaded (js ''p1'') (Inl (PersistenceFailure ''offline''))
               (fst (useProvider_effect (js ''p1'')
                       (view_provider (useProvider (js ''p1'') init_service hook_mount))
                       hook_mount))))
   \<and> \<not> view_isLoading
         (useProvider (js ''p1'') init_service
            (fst (useProvider_effect (js ''p1'')
                    (view_provider
                       (useProvider (js ''p1'') init_service
                          (useProvider_loaded (js ''p1'') (Inl (PersistenceFailure ''offline''))
                             (fst (useProvider_effect (js ''p1'')
                                     (view_provider
                                        (useProvider (js ''p1'') init_service hook_mount))
                                     hook_mount)))))
                    (useProvider_loaded (js ''p1'') (Inl (PersistenceFailure ''offline''))
                       (fst (useProvider_effect (js ''p1'')
                               (view_provider (useProvider (js ''p1'') init_service hook_mount))
                               hook_mount))))))"
  by (simp add: useProvider_def useProvider_getSnapshot_def useProvider_effect_def
      useProvider_loaded_def hook_mount_def Let_def isValidId_def trim_def js_whitespace_def
      js_def init_service_def getProviderCached_def)

end
